theory Spec2Isabelle
  imports Main "HOL-Library.Word"
begin

unbundle bit_operations_syntax

section \<open>Shared types\<close>

type_synonym byte = "8 word"
type_synonym u64 = "64 word"

text \<open>
  The errors the embedded functions return. \<open>ErrOther\<close> stands for an error produced
  by a collaborator outside the embedded code (database driver, RPC client, ABI decoder).
\<close>

datatype error =
    ErrNumOverflow
  | ErrNotAbleToSync
  | ErrBlockHashMismatchEvent
  | ErrNoRows
  | ErrIncompatible
  | ErrSyntax
  | ErrAmount error int  \<comment> \<open>\<open>fmt.Errorf("%s: %d", err, tx.Amount)\<close>\<close>
  | ErrOther string

text \<open>
  A Go call either returns its values, or panics (nil dereference, index out of range).
\<close>

datatype 'a go = Returns 'a | Panics

section \<open>api/dbtoapistructs.go: bjjToString\<close>

text \<open>
  Go's \<open>encoding/base64\<close> with the URL alphabet and no padding
  (\<open>base64.RawURLEncoding\<close>): three bytes give four characters, a rest of one byte gives
  two characters and a rest of two bytes gives three.
\<close>

definition encodeURL :: string where
  "encodeURL = ''ABCDEFGHIJKLMNOPQRSTUVWXYZabcdefghijklmnopqrstuvwxyz0123456789-_''"

definition b64 :: "nat \<Rightarrow> char" where
  "b64 n = encodeURL ! (n mod 64)"

fun RawURLEncoding_EncodeToString :: "byte list \<Rightarrow> string" where
  "RawURLEncoding_EncodeToString (a # b # c # rest) =
     (let v = unat a * 65536 + unat b * 256 + unat c
      in b64 (v div 262144) # b64 (v div 4096) # b64 (v div 64) # b64 v
         # RawURLEncoding_EncodeToString rest)"
| "RawURLEncoding_EncodeToString [a, b] =
     (let v = unat a * 65536 + unat b * 256
      in [b64 (v div 262144), b64 (v div 4096), b64 (v div 64)])"
| "RawURLEncoding_EncodeToString [a] =
     (let v = unat a * 65536
      in [b64 (v div 262144), b64 (v div 4096)])"
| "RawURLEncoding_EncodeToString [] = []"

text \<open>
  The loop \<open>for i := 1; i < len(pkComp); i++ { sum += pkComp[i] }\<close>; \<open>sum\<close> is a
  \<open>byte\<close>, so the addition wraps around.
\<close>

function bjj_sum_loop :: "byte list \<Rightarrow> nat \<Rightarrow> byte \<Rightarrow> byte" where
  "bjj_sum_loop pkComp i acc =
     (if i < length pkComp then bjj_sum_loop pkComp (Suc i) (acc + pkComp ! i) else acc)"
  by pat_completeness auto
termination
  by (relation "measure (\<lambda>(pkComp, i, acc). length pkComp - i)") auto

declare bjj_sum_loop.simps [simp del]

text \<open>
  \<open>bjjToString\<close> takes the 32 bytes of \<open>bjj.Compress()\<close>. The array has 32 elements, so
  \<open>pkComp[0]\<close> is always in range.
\<close>

definition bjjToString :: "byte list \<Rightarrow> string" where
  "bjjToString pkComp =
     (let checksum = bjj_sum_loop pkComp 1 (pkComp ! 0);
          bjjSum = pkComp @ [checksum]
      in ''hez:'' @ RawURLEncoding_EncodeToString bjjSum)"

section \<open>db/historydb: paginated API queries\<close>

text \<open>
  What a call does to the API connection controller and to the database, in order:
  \<open>hdb.apiConnCon.Acquire()\<close>, the deferred \<open>cancel()\<close> and \<open>Release()\<close>, and
  \<open>meddler.QueryAll\<close>.
\<close>

datatype event = EvAcquire | EvRelease | EvCancel | EvQueryAll

text \<open>
  The query string is built by appending the fragments \<open>WHERE\<close>, \<open>AND\<close> and one
  condition at a time; the model appends the same fragments as tokens. The tail
  \<open>ORDER BY item_id ASC|DESC LIMIT n\<close> is kept as two values.
\<close>

datatype 'c tok = SqlWhere | SqlAnd | Cond 'c

text \<open>\<open>if nextIsAnd { queryStr += "AND " } else { queryStr += "WHERE " }; queryStr += c\<close>\<close>

definition add_filter :: "'c tok list \<Rightarrow> bool \<Rightarrow> 'c \<Rightarrow> 'c tok list" where
  "add_filter queryStr nextIsAnd c =
     queryStr @ [if nextIsAnd then SqlAnd else SqlWhere, Cond c]"

text \<open>
  The database accepts \<open>WHERE c (AND c)*\<close> or no filter at all; anything else is a
  syntax error.
\<close>

fun wf_and :: "'c tok list \<Rightarrow> bool" where
  "wf_and [] = True"
| "wf_and (SqlAnd # Cond c # rest) = wf_and rest"
| "wf_and _ = False"

fun wf_where :: "'c tok list \<Rightarrow> bool" where
  "wf_where [] = True"
| "wf_where (SqlWhere # Cond c # rest) = wf_and rest"
| "wf_where _ = False"

fun conds_of :: "'c tok list \<Rightarrow> 'c list" where
  "conds_of [] = []"
| "conds_of (Cond c # rest) = c # conds_of rest"
| "conds_of (_ # rest) = conds_of rest"

text \<open>
  A table is the rows of the \<open>FROM\<close> clause (the joins already made); the database may
  fail for reasons of its own.
\<close>

record 'r database =
  rows :: "'r list"
  failure :: "error option"

text \<open>
  \<open>meddler.QueryAll\<close> on a query that selects \<open>count(*) OVER() AS total_items\<close>: the
  rows that satisfy every condition, ordered by \<open>item_id\<close>, cut at \<open>LIMIT\<close>, each with
  the number of rows that satisfy the conditions (counted before \<open>LIMIT\<close>) in its
  \<open>TotalItems\<close> field, which is a \<open>uint64\<close>.
\<close>

definition matching :: "('c \<Rightarrow> 'r \<Rightarrow> bool) \<Rightarrow> 'r database \<Rightarrow> 'c tok list \<Rightarrow> 'r list" where
  "matching holds db queryStr =
     filter (\<lambda>r. list_all (\<lambda>c. holds c r) (conds_of queryStr)) (rows db)"

definition QueryAll ::
  "('c \<Rightarrow> 'r \<Rightarrow> bool) \<Rightarrow> ('r \<Rightarrow> nat) \<Rightarrow> 'r database \<Rightarrow> 'c tok list \<Rightarrow> bool \<Rightarrow> nat
     \<Rightarrow> error + ('r \<times> u64) list" where
  "QueryAll holds item_id db queryStr asc lim =
     (case failure db of
        Some e \<Rightarrow> Inl e
      | None \<Rightarrow>
          if \<not> wf_where queryStr then Inl ErrSyntax
          else
            let ms = matching holds db queryStr;
                ordered = (if asc then sort_key item_id ms else rev (sort_key item_id ms))
            in Inr (map (\<lambda>r. (r, of_nat (length ms))) (take lim ordered)))"

text \<open>Modelled from the spec: the constant \<open>OrderAsc\<close> of the history DB (\<open>order=ASC|DESC\<close>).\<close>

definition OrderAsc :: string where
  "OrderAsc = ''ASC''"

subsection \<open>GetTxsAPI\<close>

record TxRow =
  tx_item_id :: nat
  tx_from_eth_addr :: "nat option"
  tx_to_eth_addr :: "nat option"
  tx_from_bjj :: "nat option"
  tx_to_bjj :: "nat option"
  tx_token_id :: nat
  tx_effective_from_idx :: "nat option"
  tx_to_idx :: nat
  tx_batch_num :: "nat option"
  tx_type :: string

datatype tx_cond =
    TxEthAddr nat       \<comment> \<open>\<open>(tx.from_eth_addr = ? OR tx.to_eth_addr = ?)\<close>\<close>
  | TxBjj nat           \<comment> \<open>\<open>(tx.from_bjj = ? OR tx.to_bjj = ?)\<close>\<close>
  | TxTokenID nat       \<comment> \<open>\<open>tx.token_id = ?\<close>\<close>
  | TxIdx nat           \<comment> \<open>\<open>(tx.effective_from_idx = ? OR tx.to_idx = ?)\<close>\<close>
  | TxBatchNum nat      \<comment> \<open>\<open>tx.batch_num = ?\<close>\<close>
  | TxType string       \<comment> \<open>\<open>tx.type = ?\<close>\<close>
  | TxItemGe nat        \<comment> \<open>\<open>tx.item_id >= ?\<close>\<close>
  | TxItemLe nat        \<comment> \<open>\<open>tx.item_id <= ?\<close>\<close>
  | TxBatchNumNotNull   \<comment> \<open>\<open>tx.batch_num IS NOT NULL\<close>\<close>

text \<open>A comparison with a \<open>NULL\<close> column is not true in SQL.\<close>

fun tx_holds :: "tx_cond \<Rightarrow> TxRow \<Rightarrow> bool" where
  "tx_holds (TxEthAddr a) r = (tx_from_eth_addr r = Some a \<or> tx_to_eth_addr r = Some a)"
| "tx_holds (TxBjj k) r = (tx_from_bjj r = Some k \<or> tx_to_bjj r = Some k)"
| "tx_holds (TxTokenID t) r = (tx_token_id r = t)"
| "tx_holds (TxIdx i) r = (tx_effective_from_idx r = Some i \<or> tx_to_idx r = i)"
| "tx_holds (TxBatchNum b) r = (tx_batch_num r = Some b)"
| "tx_holds (TxType ty) r = (tx_type r = ty)"
| "tx_holds (TxItemGe n) r = (n \<le> tx_item_id r)"
| "tx_holds (TxItemLe n) r = (tx_item_id r \<le> n)"
| "tx_holds TxBatchNumNotNull r = (tx_batch_num r \<noteq> None)"

text \<open>
  The Go function returns \<open>([]TxAPI, uint64, error)\<close>; a \<open>nil\<close> slice is the empty
  list. \<open>*limit\<close> panics on a \<open>nil\<close> limit. The deferred \<open>Release\<close> and \<open>cancel\<close>
  run at every exit, a panic included, last deferred first.
\<close>

type_synonym 'r page = "('r \<times> u64) list \<times> u64 \<times> error option"

definition GetTxsAPI ::
  "error option \<Rightarrow> TxRow database \<Rightarrow>
   nat option \<Rightarrow> nat option \<Rightarrow> nat option \<Rightarrow> nat option \<Rightarrow> nat option \<Rightarrow> string option \<Rightarrow>
   nat option \<Rightarrow> nat option \<Rightarrow> string \<Rightarrow> TxRow page go \<times> event list" where
  "GetTxsAPI acquire db ethAddr bjj tokenID idx batchNum txType fromItem limit order =
     (case acquire of
        Some err \<Rightarrow> (Returns ([], 0, Some err), [EvAcquire, EvCancel])
      | None \<Rightarrow>
          if ethAddr \<noteq> None \<and> bjj \<noteq> None
          then (Returns ([], 0, Some ErrIncompatible), [EvAcquire, EvRelease, EvCancel])
          else
            let (q1, n1) = (case ethAddr of
                              Some a \<Rightarrow> ([SqlWhere, Cond (TxEthAddr a)], True)
                            | None \<Rightarrow>
                                (case bjj of
                                   Some k \<Rightarrow> ([SqlWhere, Cond (TxBjj k)], True)
                                 | None \<Rightarrow> ([], False)));
                (q2, n2) = (case tokenID of
                              Some t \<Rightarrow> (add_filter q1 n1 (TxTokenID t), True)
                            | None \<Rightarrow> (q1, n1));
                (q3, n3) = (case idx of
                              Some i \<Rightarrow> (add_filter q2 n2 (TxIdx i), True)
                            | None \<Rightarrow> (q2, n2));
                (q4, n4) = (case batchNum of
                              Some b \<Rightarrow> (add_filter q3 n3 (TxBatchNum b), True)
                            | None \<Rightarrow> (q3, n3));
                (q5, n5) = (case txType of
                              Some ty \<Rightarrow> (add_filter q4 n4 (TxType ty), True)
                            | None \<Rightarrow> (q4, n4));
                (q6, n6) = (case fromItem of
                              Some f \<Rightarrow>
                                (add_filter q5 n5
                                   (if order = OrderAsc then TxItemGe f else TxItemLe f), True)
                            | None \<Rightarrow> (q5, n5));
                queryStr = add_filter q6 n6 TxBatchNumNotNull
            in case limit of
                 None \<Rightarrow> (Panics, [EvAcquire, EvRelease, EvCancel])
               | Some lim \<Rightarrow>
                   (case QueryAll tx_holds tx_item_id db queryStr (order = OrderAsc) lim of
                      Inl err \<Rightarrow>
                        (Returns ([], 0, Some err),
                         [EvAcquire, EvQueryAll, EvRelease, EvCancel])
                    | Inr txs \<Rightarrow>
                        (Returns
                           (if length txs = 0 then (txs, 0, None)
                            else (txs, snd (txs ! 0) - of_nat (length txs), None)),
                         [EvAcquire, EvQueryAll, EvRelease, EvCancel])))"

subsection \<open>GetTokensAPI\<close>

record TokenRow =
  token_item_id :: nat
  token_token_id :: nat
  token_symbol :: string
  token_name :: string

datatype token_cond =
    TokenIDIn "nat list"        \<comment> \<open>\<open>token_id IN (?)\<close>\<close>
  | TokenSymbolIn "string list" \<comment> \<open>\<open>symbol IN (?)\<close>\<close>
  | TokenNameMatches string     \<comment> \<open>\<open>name ~ ?\<close>\<close>
  | TokenItemGe nat             \<comment> \<open>\<open>item_id >= ?\<close>\<close>
  | TokenItemLe nat             \<comment> \<open>\<open>item_id <= ?\<close>\<close>

text \<open>
  The regular-expression match \<open>~\<close> of the database is the parameter \<open>re\<close>
  (pattern first).
\<close>

fun token_holds :: "(string \<Rightarrow> string \<Rightarrow> bool) \<Rightarrow> token_cond \<Rightarrow> TokenRow \<Rightarrow> bool" where
  "token_holds re (TokenIDIn ids) r = (token_token_id r \<in> set ids)"
| "token_holds re (TokenSymbolIn symbols) r = (token_symbol r \<in> set symbols)"
| "token_holds re (TokenNameMatches name) r = re name (token_name r)"
| "token_holds re (TokenItemGe n) r = (n \<le> token_item_id r)"
| "token_holds re (TokenItemLe n) r = (token_item_id r \<le> n)"

text \<open>
  \<open>sqlx.In\<close> expands each \<open>IN (?)\<close> to the elements of its slice; the slices bound
  here are never empty, so it returns no error.
\<close>

definition GetTokensAPI ::
  "error option \<Rightarrow> (string \<Rightarrow> string \<Rightarrow> bool) \<Rightarrow> TokenRow database \<Rightarrow>
   nat list \<Rightarrow> string list \<Rightarrow> string \<Rightarrow> nat option \<Rightarrow> nat option \<Rightarrow> string \<Rightarrow>
   TokenRow page go \<times> event list" where
  "GetTokensAPI acquire re db ids symbols name fromItem limit order =
     (case acquire of
        Some err \<Rightarrow> (Returns ([], 0, Some err), [EvAcquire, EvCancel])
      | None \<Rightarrow>
          let (q1, n1) = (if length ids > 0 then ([SqlWhere, Cond (TokenIDIn ids)], True)
                          else ([], False));
              (q2, n2) = (if length symbols > 0
                          then (add_filter q1 n1 (TokenSymbolIn symbols), True)
                          else (q1, n1));
              (q3, n3) = (if name \<noteq> []
                          then (add_filter q2 n2 (TokenNameMatches name), True)
                          else (q2, n2));
              queryStr = (case fromItem of
                            Some f \<Rightarrow>
                              add_filter q3 n3
                                (if order = OrderAsc then TokenItemGe f else TokenItemLe f)
                          | None \<Rightarrow> q3)
          in case limit of
               None \<Rightarrow> (Panics, [EvAcquire, EvRelease, EvCancel])
             | Some lim \<Rightarrow>
                 (case QueryAll (token_holds re) token_item_id db queryStr
                         (order = OrderAsc) lim of
                    Inl err \<Rightarrow>
                      (Returns ([], 0, Some err),
                       [EvAcquire, EvQueryAll, EvRelease, EvCancel])
                  | Inr tokens \<Rightarrow>
                      (Returns
                         (if length tokens = 0 then ([], 0, None)
                          else (tokens, of_nat (length tokens) - snd (tokens ! 0), None)),
                       [EvAcquire, EvQueryAll, EvRelease, EvCancel])))"

section \<open>synchronizer: reorg and Status\<close>

type_synonym hash = nat

text \<open>\<open>common.Block\<close>, with the fields the synchronizer reads.\<close>

record Block =
  EthBlockNum :: int
  Hash :: hash

text \<open>
  The collaborators of the synchronizer whose code is outside the embedded files: the
  Ethereum client, the history DB (of state \<open>'h\<close>) and the state DB (of state \<open>'s\<close>).
  Each is a parameter. A Go method that returns \<open>error\<close> and changes its receiver
  returns the error or the new state; \<open>GetLastBatchNum\<close> returns the Go pair
  \<open>(batchNum, err)\<close>.
\<close>

record ('h, 's) collaborators =
  EthBlockByNumber :: "int \<Rightarrow> error + Block"
  EthCurrentBlock :: "error + int"
  GetBlock :: "'h \<Rightarrow> int \<Rightarrow> error + Block"
  GetLastBlock :: "'h \<Rightarrow> error + Block"
  GetLastBatchNum :: "'h \<Rightarrow> nat \<times> error option"
  Reorg :: "'h \<Rightarrow> int \<Rightarrow> error + 'h"
  Reset :: "'s \<Rightarrow> nat \<Rightarrow> error + 's"

record ('h, 's) Synchronizer =
  historyDB :: 'h
  stateDB :: 's
  firstSavedBlock :: Block






text \<open>
  \<open>Status\<close> is the struct the method \<open>Status\<close> returns a pointer to. The method declares
  \<open>var status *Status\<close> and never allocates it; a field assignment through a pointer
  panics when the pointer is \<open>nil\<close>.
\<close>

record Status =
  CurrentBlock :: int
  CurrentBatch :: nat
  CurrentForgerAddr :: nat
  NextForgerAddr :: nat
  Synchronized :: bool

definition assign :: "'a option \<Rightarrow> ('a \<Rightarrow> 'a) \<Rightarrow> ('a option) go" where
  "assign p upd = (case p of None \<Rightarrow> Panics | Some v \<Rightarrow> Returns (Some (upd v)))"

definition Synchronizer_Status ::
  "('h, 's) collaborators \<Rightarrow> ('h, 's) Synchronizer \<Rightarrow> (Status option \<times> error option) go" where
  "Synchronizer_Status c s =
     (let status = (None :: Status option) in
      case GetLastBlock c (historyDB s) of
        Inl err \<Rightarrow> Returns (None, Some err)
      | Inr lastSavedBlock \<Rightarrow>
          (case assign status (\<lambda>st. st\<lparr>CurrentBlock := EthBlockNum lastSavedBlock\<rparr>) of
             Panics \<Rightarrow> Panics
           | Returns status1 \<Rightarrow>
               (case GetLastBatchNum c (historyDB s) of
                  (lastSavedBatch, err) \<Rightarrow>
                    if err \<noteq> None \<and> err \<noteq> Some ErrNoRows then Returns (None, err)
                    else
                      (case assign status1 (\<lambda>st. st\<lparr>CurrentBatch := lastSavedBatch\<rparr>) of
                         Panics \<Rightarrow> Panics
                       | Returns status2 \<Rightarrow>
                           (case EthCurrentBlock c of
                              Inl err' \<Rightarrow> Returns (None, Some err')
                            | Inr latestBlockNum \<Rightarrow>
                                (case status2 of
                                   None \<Rightarrow> Panics
                                 | Some st \<Rightarrow>
                                     (case assign status2
                                             (\<lambda>st'. st'\<lparr>Synchronized :=
                                                      (CurrentBlock st = latestBlockNum)\<rparr>) of
                                        Panics \<Rightarrow> Panics
                                      | Returns status3 \<Rightarrow> Returns (status3, None))))))))"

text \<open>
  Modelled from the spec: the history DB and the state DB, whose code is not among the
  embedded files. The history DB holds blocks and batches; \<open>GetBlock(num)\<close> finds a
  block by its number, \<open>GetLastBlock\<close> and \<open>GetLastBatchNum\<close> give the tip, and
  \<open>Reorg(fromBlockNum)\<close> "deletes every row with \<open>eth_block_num > fromBlockNum\<close>
  cascading through batches". The state DB has a current batch and checkpoints;
  \<open>Reset(batchNum)\<close> "restores current root to \<open>CheckpointN\<close>; all checkpoints
  \<open>> N\<close> are discarded".
\<close>

record HistoryDB =
  blocks :: "Block list"
  batches :: "(nat \<times> int) list"  \<comment> \<open>\<open>(batch_num, eth_block_num)\<close>\<close>

record StateDB =
  currentBatch :: nat
  checkpoints :: "nat list"

definition HistoryDB_GetBlock :: "HistoryDB \<Rightarrow> int \<Rightarrow> error + Block" where
  "HistoryDB_GetBlock h n =
     (case find (\<lambda>b. EthBlockNum b = n) (blocks h) of
        None \<Rightarrow> Inl ErrNoRows
      | Some b \<Rightarrow> Inr b)"

definition HistoryDB_GetLastBlock :: "HistoryDB \<Rightarrow> error + Block" where
  "HistoryDB_GetLastBlock h =
     (case rev (sort_key EthBlockNum (blocks h)) of
        [] \<Rightarrow> Inl ErrNoRows
      | b # _ \<Rightarrow> Inr b)"

definition HistoryDB_GetLastBatchNum :: "HistoryDB \<Rightarrow> nat \<times> error option" where
  "HistoryDB_GetLastBatchNum h =
     (case batches h of
        [] \<Rightarrow> (0, Some ErrNoRows)
      | _ \<Rightarrow> (fold max (map fst (batches h)) 0, None))"

definition HistoryDB_Reorg :: "HistoryDB \<Rightarrow> int \<Rightarrow> error + HistoryDB" where
  "HistoryDB_Reorg h fromBlockNum =
     Inr \<lparr>blocks = filter (\<lambda>b. EthBlockNum b \<le> fromBlockNum) (blocks h),
          batches = filter (\<lambda>(n, blk). blk \<le> fromBlockNum) (batches h)\<rparr>"

definition StateDB_Reset :: "StateDB \<Rightarrow> nat \<Rightarrow> error + StateDB" where
  "StateDB_Reset st batchNum =
     (if batchNum \<in> set (checkpoints st)
      then Inr \<lparr>currentBatch = batchNum,
                checkpoints = filter (\<lambda>n. n \<le> batchNum) (checkpoints st)\<rparr>
      else Inl (ErrOther ''checkpoint not found''))"

text \<open>The collaborators over these two stores and a chain given as a list of blocks.\<close>

definition chain_EthBlockByNumber :: "Block list \<Rightarrow> int \<Rightarrow> error + Block" where
  "chain_EthBlockByNumber chain n =
     (case find (\<lambda>b. EthBlockNum b = n) chain of
        None \<Rightarrow> Inl (ErrOther ''not found'')
      | Some b \<Rightarrow> Inr b)"

definition stores :: "Block list \<Rightarrow> (HistoryDB, StateDB) collaborators" where
  "stores chain =
     \<lparr>EthBlockByNumber = chain_EthBlockByNumber chain,
      EthCurrentBlock = (case rev (sort_key EthBlockNum chain) of
                           [] \<Rightarrow> Inl (ErrOther ''not found'')
                         | b # _ \<Rightarrow> Inr (EthBlockNum b)),
      GetBlock = HistoryDB_GetBlock,
      GetLastBlock = HistoryDB_GetLastBlock,
      GetLastBatchNum = HistoryDB_GetLastBatchNum,
      Reorg = HistoryDB_Reorg,
      Reset = StateDB_Reset\<rparr>"

section \<open>common/l2tx.go\<close>

text \<open>
  \<open>binary.BigEndian\<close> on \<open>n\<close> bytes: the value written most significant byte first,
  and the value read back.
\<close>

fun be_bytes :: "nat \<Rightarrow> nat \<Rightarrow> byte list" where
  "be_bytes 0 v = []"
| "be_bytes (Suc n) v = be_bytes n (v div 256) @ [of_nat v]"

definition be_val :: "byte list \<Rightarrow> nat" where
  "be_val bs = foldl (\<lambda>a b. a * 256 + unat b) 0 bs"

text \<open>Go's \<open>xs[lo:hi]\<close> within range, and \<open>copy(dst[lo:hi], src)\<close> into a slice of \<open>dst\<close>.\<close>

definition go_slice :: "'a list \<Rightarrow> nat \<Rightarrow> nat \<Rightarrow> 'a list" where
  "go_slice xs lo hi = take (hi - lo) (drop lo xs)"

definition copy_into :: "'a list \<Rightarrow> nat \<Rightarrow> nat \<Rightarrow> 'a list \<Rightarrow> 'a list" where
  "copy_into dst lo hi src =
     (let n = min (hi - lo) (length src)
      in take lo dst @ take n src @ drop (lo + n) dst)"

text \<open>
  Modelled from the spec: the codecs of \<open>Idx\<close>, \<open>Nonce\<close>, \<open>TokenID\<close> and of the two
  bytes of a \<open>Float16\<close>, whose code is not among the embedded files. "\<open>Idx\<close> \<open>\<rightleftharpoons>\<close> 6 bytes
  big-endian", an \<open>Idx\<close> being a "48-bit unsigned integer"; a \<open>Nonce\<close> is a \<open>u40\<close> written
  on 5 bytes, a \<open>TokenID\<close> a \<open>u32\<close> written on 4 bytes, a \<open>Float16\<close> 16 bits written on
  2 bytes. A value that overflows its width is refused with \<open>ErrNumOverflow\<close>.
\<close>

definition Idx_Bytes :: "nat \<Rightarrow> error + byte list" where
  "Idx_Bytes idx = (if idx \<ge> 2 ^ 48 then Inl ErrNumOverflow else Inr (be_bytes 6 idx))"

definition IdxFromBytes :: "byte list \<Rightarrow> error + nat" where
  "IdxFromBytes b =
     (if length b \<noteq> 6 then Inl (ErrOther ''can not parse Idx, bytes len != 6'')
      else Inr (be_val b))"

definition Nonce_Bytes :: "nat \<Rightarrow> error + byte list" where
  "Nonce_Bytes nonce = (if nonce \<ge> 2 ^ 40 then Inl ErrNumOverflow else Inr (be_bytes 5 nonce))"

definition TokenID_Bytes :: "32 word \<Rightarrow> byte list" where
  "TokenID_Bytes t = be_bytes 4 (unat t)"

definition Float16_Bytes :: "16 word \<Rightarrow> byte list" where
  "Float16_Bytes f16 = be_bytes 2 (unat f16)"

definition Float16FromBytes :: "byte list \<Rightarrow> 16 word" where
  "Float16FromBytes b = of_nat (be_val (take 2 b))"

text \<open>
  The parts of the codecs that stay parameters: the length \<open>TxIDLen\<close> of a \<open>TxID\<close>
  (at least 1: byte 0 is the type tag), the conversion \<open>NewFloat16\<close> of an amount, which
  fails when the amount is not exactly representable, the value \<open>BigInt\<close> of a
  \<open>Float16\<close>, and SHA-256.
\<close>

record codecs =
  TxIDLen :: nat
  NewFloat16 :: "int \<Rightarrow> error + 16 word"
  Float16_BigInt :: "16 word \<Rightarrow> int"
  sha256 :: "byte list \<Rightarrow> byte list"

text \<open>Modelled from the spec: the type tag of an L2 transaction, \<open>0x02\<close>.\<close>

definition TxIDPrefixL2Tx :: byte where
  "TxIDPrefixL2Tx = 2"

text \<open>The struct \<open>L2Tx\<close>; \<open>Amount\<close> is a \<open>*big.Int\<close>, \<open>Fee\<close> a \<open>uint8\<close>.\<close>

record L2Tx =
  TxID :: "byte list"
  BatchNum :: nat
  Position :: int
  FromIdx :: nat
  ToIdx :: nat
  TokenID :: "32 word"
  Amount :: int
  Fee :: byte
  Nonce :: nat
  Type :: string
  L2Tx_EthBlockNum :: int

text \<open>
  \<open>CalculateTxID\<close>. The writes to the hash never fail. \<open>copy(txID[1:], r)\<close> copies as
  many bytes as fit and leaves the rest of \<open>txID\<close> zero.
\<close>

definition CalculateTxID :: "codecs \<Rightarrow> L2Tx \<Rightarrow> error + byte list" where
  "CalculateTxID k tx =
     (let txID = replicate (TxIDLen k) 0;
          b = []
      in case Idx_Bytes (FromIdx tx) of
           Inl err \<Rightarrow> Inl err
         | Inr fromIdxBytes \<Rightarrow>
             (let b = b @ fromIdxBytes;
                  b = b @ TokenID_Bytes (TokenID tx)
              in case NewFloat16 k (Amount tx) of
                   Inl err \<Rightarrow> Inl (ErrAmount err (Amount tx))
                 | Inr amountFloat16 \<Rightarrow>
                     (let b = b @ Float16_Bytes amountFloat16
                      in case Nonce_Bytes (Nonce tx) of
                           Inl err \<Rightarrow> Inl err
                         | Inr nonceBytes \<Rightarrow>
                             (let b = b @ nonceBytes;
                                  b = b @ [Fee tx];
                                  r = sha256 k b;
                                  txID = txID[0 := TxIDPrefixL2Tx];
                                  txID = copy_into txID 1 (TxIDLen k) r
                              in Inr txID))))"

text \<open>
  \<open>BytesDataAvailability\<close>. \<open>fromIdxBytes[6-idxLen:]\<close> is out of range, and panics, when
  \<open>idxLen\<close> is more than 6.
\<close>

definition BytesDataAvailability :: "codecs \<Rightarrow> L2Tx \<Rightarrow> nat \<Rightarrow> (error + byte list) go" where
  "BytesDataAvailability k tx nLevels =
     (let idxLen = nLevels div 8;
          b = replicate (((nLevels * 2) + 16 + 8) div 8) 0
      in case Idx_Bytes (FromIdx tx) of
           Inl err \<Rightarrow> Returns (Inl err)
         | Inr fromIdxBytes \<Rightarrow>
             if idxLen > 6 then Panics
             else
               (let b = copy_into b 0 idxLen (drop (6 - idxLen) fromIdxBytes)
                in case Idx_Bytes (ToIdx tx) of
                     Inl err \<Rightarrow> Returns (Inl err)
                   | Inr toIdxBytes \<Rightarrow>
                       (let b = copy_into b idxLen (idxLen * 2) (drop (6 - idxLen) toIdxBytes)
                        in case NewFloat16 k (Amount tx) of
                             Inl err \<Rightarrow> Returns (Inl err)
                           | Inr amountFloat16 \<Rightarrow>
                               (let b = copy_into b (idxLen * 2) (idxLen * 2 + 2)
                                          (Float16_Bytes amountFloat16);
                                    b = b[idxLen * 2 + 2 := Fee tx]
                                in Returns (Inr b)))))"

text \<open>
  \<open>L2TxFromBytesDataAvailability\<close>, for an \<open>nLevels\<close> that is not negative and a
  slice \<open>b\<close> whose capacity is its length. \<open>tx := &L2Tx{}\<close> has every field zero.
  The slices of \<open>b\<close> and of the padded arrays panic when out of range.
\<close>

definition L2Tx_zero :: "codecs \<Rightarrow> L2Tx" where
  "L2Tx_zero k =
     \<lparr>TxID = replicate (TxIDLen k) 0, BatchNum = 0, Position = 0, FromIdx = 0, ToIdx = 0,
      TokenID = 0, Amount = 0, Fee = 0, Nonce = 0, Type = [], L2Tx_EthBlockNum = 0\<rparr>"

definition L2TxFromBytesDataAvailability ::
  "codecs \<Rightarrow> byte list \<Rightarrow> nat \<Rightarrow> (error + L2Tx) go" where
  "L2TxFromBytesDataAvailability k b nLevels =
     (let idxLen = nLevels div 8;
          tx = L2Tx_zero k
      in if idxLen > 6 \<or> length b < idxLen then Panics
         else
           (let paddedFromIdxBytes = copy_into (replicate 6 0) (6 - idxLen) 6 (go_slice b 0 idxLen)
            in case IdxFromBytes paddedFromIdxBytes of
                 Inl err \<Rightarrow> Returns (Inl err)
               | Inr fromIdx \<Rightarrow>
                   (let tx = tx\<lparr>FromIdx := fromIdx\<rparr>
                    in if length b < idxLen * 2 then Panics
                       else
                         (let paddedToIdxBytes =
                                copy_into (replicate 6 0) (6 - idxLen) 6
                                  (go_slice b idxLen (idxLen * 2))
                          in case IdxFromBytes paddedToIdxBytes of
                               Inl err \<Rightarrow> Returns (Inl err)
                             | Inr toIdx \<Rightarrow>
                                 (let tx = tx\<lparr>ToIdx := toIdx\<rparr>
                                  in if length b < idxLen * 2 + 3 then Panics
                                     else
                                       (let tx = tx\<lparr>Amount :=
                                                   Float16_BigInt k
                                                     (Float16FromBytes
                                                        (go_slice b (idxLen * 2) (idxLen * 2 + 2)))\<rparr>;
                                            tx = tx\<lparr>Fee := b ! (idxLen * 2 + 2)\<rparr>
                                        in Returns (Inr tx)))))))"

section \<open>eth/rollup.go\<close>

subsection \<open>RollupForgeBatchArgs: the L1 coordinator transactions\<close>

definition RollupConstL1CoordinatorTotalBytes :: nat where
  "RollupConstL1CoordinatorTotalBytes = 101"

text \<open>
  Modelled from the spec: the constant \<open>common.L1CoordinatorTxBytesLen\<close>, the serialized
  length of a coordinator L1Tx, "101 bytes".
\<close>

definition L1CoordinatorTxBytesLen :: nat where
  "L1CoordinatorTxBytesLen = 101"

text \<open>
  The loop of \<open>RollupForgeBatchArgs\<close> over \<open>aux.EncodedL1CoordinatorTx\<close>, on the
  slices \<open>L1CoordinatorTxs\<close> and \<open>L1CoordinatorTxsAuths\<close> it appends to. The parser
  \<open>common.L1CoordinatorTxFromBytes\<close> is a parameter. Every slice taken is in range,
  since \<open>i < numTxsL1\<close>.
\<close>

function L1CoordinatorTxs_loop ::
  "(byte list \<Rightarrow> error + 'l) \<Rightarrow> byte list \<Rightarrow> nat \<Rightarrow> nat \<Rightarrow> 'l list \<Rightarrow> byte list list
     \<Rightarrow> error + ('l list \<times> byte list list)" where
  "L1CoordinatorTxs_loop L1CoordinatorTxFromBytes enc numTxsL1 i txs auths =
     (if i < numTxsL1 then
        (let bytesL1Coordinator =
               go_slice enc (i * L1CoordinatorTxBytesLen) ((i + 1) * L1CoordinatorTxBytesLen);
             signature = [];
             v = bytesL1Coordinator ! 0;
             s = go_slice bytesL1Coordinator 1 33;
             r = go_slice bytesL1Coordinator 33 65;
             signature = signature @ r;
             signature = signature @ s;
             signature = signature @ [v]
         in case L1CoordinatorTxFromBytes bytesL1Coordinator of
              Inl err \<Rightarrow> Inl err
            | Inr l1Tx \<Rightarrow>
                L1CoordinatorTxs_loop L1CoordinatorTxFromBytes enc numTxsL1 (Suc i)
                  (txs @ [l1Tx]) (auths @ [signature]))
      else Inr (txs, auths))"
  by pat_completeness auto
termination
  by (relation "measure (\<lambda>(p, enc, numTxsL1, i, txs, auths). numTxsL1 - i)") auto

declare L1CoordinatorTxs_loop.simps [simp del]

definition RollupForgeBatchArgs_L1CoordinatorTxs ::
  "(byte list \<Rightarrow> error + 'l) \<Rightarrow> byte list \<Rightarrow> error + ('l list \<times> byte list list)" where
  "RollupForgeBatchArgs_L1CoordinatorTxs L1CoordinatorTxFromBytes EncodedL1CoordinatorTx =
     (let numTxsL1 = length EncodedL1CoordinatorTx div L1CoordinatorTxBytesLen
      in L1CoordinatorTxs_loop L1CoordinatorTxFromBytes EncodedL1CoordinatorTx numTxsL1 0 [] [])"

text \<open>
  The signature of a chunk as the spec's layout reads it,
  \<open>v(1)\<close> \<open>\<parallel>\<close> \<open>r(32)\<close> \<open>\<parallel>\<close> \<open>s(32)\<close> \<open>\<parallel>\<close> \<open>FromBJJcompressed(32)\<close> \<open>\<parallel>\<close> \<open>TokenID(4)\<close>,
  put together as \<open>r\<close> \<open>\<parallel>\<close> \<open>s\<close> \<open>\<parallel>\<close> \<open>v\<close>.
\<close>

definition spec_signature :: "byte list \<Rightarrow> byte list" where
  "spec_signature chunk =
     (let v = chunk ! 0; r = go_slice chunk 1 33; s = go_slice chunk 33 65
      in r @ s @ [v])"

subsection \<open>RollupEventsByBlock\<close>

















section \<open>Lemmas\<close>

subsection \<open>bjjToString\<close>

lemma bjj_sum_loop_drop:
  "i \<le> length pkComp \<Longrightarrow> bjj_sum_loop pkComp i s = s + sum_list (drop i pkComp)"
proof (induction pkComp i s rule: bjj_sum_loop.induct)
  case (1 pkComp i acc)
  show ?case
  proof (cases "i < length pkComp")
    case True
    then have "drop i pkComp = pkComp ! i # drop (Suc i) pkComp"
      by (simp add: Cons_nth_drop_Suc)
    with True "1.IH" show ?thesis
      by (subst bjj_sum_loop.simps) (simp add: add.assoc)
  next
    case False
    with "1.prems" show ?thesis
      by (subst bjj_sum_loop.simps) simp
  qed
qed

lemma sum_list_bytes: "sum_list (xs :: byte list) = of_nat (sum_list (map unat xs))"
  by (induction xs) simp_all

lemma byte_of_nat_mod: "(of_nat (n mod 256) :: byte) = of_nat n"
  by (simp add: word_eq_iff_unsigned [where ?'a = nat] unat_of_nat)

lemma length_RawURLEncoding:
  "length (RawURLEncoding_EncodeToString bs) = (length bs * 4 + 2) div 3"
  by (induction bs rule: RawURLEncoding_EncodeToString.induct) (simp_all add: Let_def)

text \<open>
  C7. For every BabyJubJub public key (its 32 compressed bytes), the API string is
  \<open>hez:\<close> followed by the unpadded base64url encoding of the 32 bytes and one checksum
  byte, and the checksum byte is the sum of the 32 bytes modulo 256. The string has
  4 + 44 characters.
\<close>

theorem bjjToString_checksum:
  assumes "length pkComp = 32"
  shows "bjjToString pkComp =
           ''hez:'' @ RawURLEncoding_EncodeToString
                        (pkComp @ [of_nat (sum_list (map unat pkComp) mod 256)])
         \<and> length (bjjToString pkComp) = 48"
proof -
  from assms obtain x xs where pk: "pkComp = x # xs"
    by (cases pkComp) auto
  have "bjj_sum_loop pkComp 1 (pkComp ! 0) = x + sum_list xs"
    using assms by (simp add: bjj_sum_loop_drop pk)
  also have "\<dots> = sum_list pkComp"
    by (simp add: pk)
  also have "\<dots> = of_nat (sum_list (map unat pkComp) mod 256)"
    by (simp only: sum_list_bytes byte_of_nat_mod)
  finally have s: "bjj_sum_loop pkComp 1 (pkComp ! 0)
                     = of_nat (sum_list (map unat pkComp) mod 256)" .
  have eq: "bjjToString pkComp =
              ''hez:'' @ RawURLEncoding_EncodeToString
                           (pkComp @ [of_nat (sum_list (map unat pkComp) mod 256)])"
    unfolding bjjToString_def Let_def s ..
  have "length (bjjToString pkComp) = 48"
    unfolding eq using assms by (simp add: length_RawURLEncoding)
  with eq show ?thesis ..
qed

theorem bjjToString_checksum_witness:
  "length (replicate 32 (255 :: byte)) = 32
   \<and> bjjToString (replicate 32 255) =
       ''hez:'' @ RawURLEncoding_EncodeToString (replicate 32 255 @ [224])
   \<and> length (bjjToString (replicate 32 255)) = 48"
  using bjjToString_checksum [of "replicate 32 255"]
  by (simp add: sum_list_replicate length_RawURLEncoding)

subsection \<open>Paginated queries\<close>

lemma conds_of_append: "conds_of (xs @ ys) = conds_of xs @ conds_of ys"
  by (induction xs rule: conds_of.induct) simp_all

lemma conds_of_add_filter: "conds_of (add_filter q n c) = conds_of q @ [c]"
  by (simp add: add_filter_def conds_of_append)

lemma matching_holds:
  "r \<in> set (matching holds db q) \<Longrightarrow> c \<in> set (conds_of q) \<Longrightarrow> holds c r"
  by (auto simp: matching_def list_all_iff)

lemma QueryAll_rows:
  assumes "QueryAll holds item_id db q asc lim = Inr res" and "(r, t) \<in> set res"
  shows "r \<in> set (matching holds db q) \<and> t = of_nat (length (matching holds db q))"
proof -
  let ?ms = "matching holds db q"
  have sub: "set (take lim (sort_key item_id ?ms)) \<subseteq> set ?ms"
            "set (take lim (rev (sort_key item_id ?ms))) \<subseteq> set ?ms"
    using set_take_subset [of lim "sort_key item_id ?ms"]
          set_take_subset [of lim "rev (sort_key item_id ?ms)"] by simp_all
  from assms sub show ?thesis
    by (auto simp: QueryAll_def Let_def split: option.splits if_splits)
qed

lemma QueryAll_length:
  assumes "QueryAll holds item_id db q asc lim = Inr res"
  shows "length res = min lim (length (matching holds db q))"
  using assms
  by (auto simp: QueryAll_def Let_def split: option.splits if_splits)

text \<open>
  What the sibling queries return as \<open>pendingItems\<close>, \<open>rows[0].TotalItems - len(rows)\<close>,
  is the number of matching rows not returned; the subtraction does not wrap.
\<close>

lemma QueryAll_pending:
  assumes "QueryAll holds item_id db q asc lim = Inr res" and "res \<noteq> []"
  shows "snd (res ! 0) - of_nat (length res)
           = (of_nat (length (matching holds db q) - length res) :: u64)"
proof -
  have "res ! 0 \<in> set res" using assms(2) by simp
  then have "snd (res ! 0) = of_nat (length (matching holds db q))"
    using QueryAll_rows [OF assms(1), of "fst (res ! 0)" "snd (res ! 0)"] by simp
  moreover have "length res \<le> length (matching holds db q)"
    using QueryAll_length [OF assms(1)] by simp
  ultimately show ?thesis by simp
qed

text \<open>
  C1. \<open>pendingItems\<close> is the number of matching rows minus the number of returned rows.
  \<open>GetTokensAPI\<close> subtracts the other way round, \<open>len(tokens) - tokens[0].TotalItems\<close>, in
  \<open>uint64\<close>: with three tokens in the table, no filter and \<open>LIMIT 1\<close> it returns one row
  and \<open>pendingItems\<close> = 2^64 - 2, where two rows are pending.
\<close>

theorem GetTokensAPI_pendingItems_wraps:
  "GetTokensAPI None (\<lambda>p s. True)
     \<lparr>rows = [\<lparr>token_item_id = 1, token_token_id = 0, token_symbol = ''ETH'',
               token_name = ''Ether''\<rparr>,
              \<lparr>token_item_id = 2, token_token_id = 1, token_symbol = ''HEZ'',
               token_name = ''Hermez''\<rparr>,
              \<lparr>token_item_id = 3, token_token_id = 2, token_symbol = ''DAI'',
               token_name = ''Dai''\<rparr>],
      failure = None\<rparr> [] [] [] None (Some 1) ''ASC''
   = (Returns ([(\<lparr>token_item_id = 1, token_token_id = 0, token_symbol = ''ETH'',
                  token_name = ''Ether''\<rparr>, 3)],
               18446744073709551614, None),
      [EvAcquire, EvQueryAll, EvRelease, EvCancel])"
  by (simp add: GetTokensAPI_def QueryAll_def matching_def OrderAsc_def)

text \<open>
  C9. Every row \<open>GetTxsAPI\<close> returns has a \<open>batch_num\<close> that is not \<open>NULL\<close>, whatever
  the filters, the pagination and the outcome of the call: the condition
  \<open>tx.batch_num IS NOT NULL\<close> is appended to every query.
\<close>

theorem GetTxsAPI_batch_num_not_null:
  assumes "GetTxsAPI acquire db ethAddr bjj tokenID idx batchNum txType fromItem limit order
             = (Returns (txs, pendingItems, err), evs)"
  shows "\<forall>(r, total) \<in> set txs. tx_batch_num r \<noteq> None"
proof (cases "\<exists>q lim res. QueryAll tx_holds tx_item_id db q (order = OrderAsc) lim = Inr res
                \<and> TxBatchNumNotNull \<in> set (conds_of q) \<and> txs = res")
  case True
  then obtain q lim where q: "QueryAll tx_holds tx_item_id db q (order = OrderAsc) lim = Inr txs"
      and c: "TxBatchNumNotNull \<in> set (conds_of q)" by blast
  have "tx_batch_num r \<noteq> None" if "(r, t) \<in> set txs" for r t
  proof -
    from that have "r \<in> set (matching tx_holds db q)" using QueryAll_rows [OF q] by blast
    from matching_holds [OF this c] show ?thesis by simp
  qed
  then show ?thesis by auto
next
  case False
  with assms have "txs = []"
    by (auto simp: GetTxsAPI_def Let_def conds_of_add_filter
             split: option.splits if_splits prod.splits sum.splits)
  then show ?thesis by simp
qed

theorem GetTxsAPI_batch_num_not_null_witness:
  "GetTxsAPI None
     \<lparr>rows = [\<lparr>tx_item_id = 1, tx_from_eth_addr = Some 10, tx_to_eth_addr = None,
               tx_from_bjj = None, tx_to_bjj = None, tx_token_id = 0,
               tx_effective_from_idx = Some 256, tx_to_idx = 257, tx_batch_num = None,
               tx_type = ''Transfer''\<rparr>,
              \<lparr>tx_item_id = 2, tx_from_eth_addr = Some 10, tx_to_eth_addr = None,
               tx_from_bjj = None, tx_to_bjj = None, tx_token_id = 0,
               tx_effective_from_idx = Some 256, tx_to_idx = 257, tx_batch_num = Some 7,
               tx_type = ''Transfer''\<rparr>],
      failure = None\<rparr>
     (Some 10) None (Some 0) None None None None (Some 5) ''ASC''
   = (Returns ([(\<lparr>tx_item_id = 2, tx_from_eth_addr = Some 10, tx_to_eth_addr = None,
                  tx_from_bjj = None, tx_to_bjj = None, tx_token_id = 0,
                  tx_effective_from_idx = Some 256, tx_to_idx = 257, tx_batch_num = Some 7,
                  tx_type = ''Transfer''\<rparr>, 1)], 0, None),
      [EvAcquire, EvQueryAll, EvRelease, EvCancel])
   \<and> tx_batch_num \<lparr>tx_item_id = 2, tx_from_eth_addr = Some 10, tx_to_eth_addr = None,
                  tx_from_bjj = None, tx_to_bjj = None, tx_token_id = 0,
                  tx_effective_from_idx = Some 256, tx_to_idx = 257, tx_batch_num = Some 7,
                  tx_type = ''Transfer''\<rparr> \<noteq> None"
proof -
  have h: "GetTxsAPI None
     \<lparr>rows = [\<lparr>tx_item_id = 1, tx_from_eth_addr = Some 10, tx_to_eth_addr = None,
               tx_from_bjj = None, tx_to_bjj = None, tx_token_id = 0,
               tx_effective_from_idx = Some 256, tx_to_idx = 257, tx_batch_num = None,
               tx_type = ''Transfer''\<rparr>,
              \<lparr>tx_item_id = 2, tx_from_eth_addr = Some 10, tx_to_eth_addr = None,
               tx_from_bjj = None, tx_to_bjj = None, tx_token_id = 0,
               tx_effective_from_idx = Some 256, tx_to_idx = 257, tx_batch_num = Some 7,
               tx_type = ''Transfer''\<rparr>],
      failure = None\<rparr>
     (Some 10) None (Some 0) None None None None (Some 5) ''ASC''
   = (Returns ([(\<lparr>tx_item_id = 2, tx_from_eth_addr = Some 10, tx_to_eth_addr = None,
                  tx_from_bjj = None, tx_to_bjj = None, tx_token_id = 0,
                  tx_effective_from_idx = Some 256, tx_to_idx = 257, tx_batch_num = Some 7,
                  tx_type = ''Transfer''\<rparr>, 1)], 0, None),
      [EvAcquire, EvQueryAll, EvRelease, EvCancel])"
    by (simp add: GetTxsAPI_def QueryAll_def matching_def OrderAsc_def add_filter_def)
  from GetTxsAPI_batch_num_not_null [OF h] h show ?thesis by simp
qed

text \<open>
  C10 (amended). In every call of \<open>GetTxsAPI\<close> with both the \<open>ethAddr\<close> and the \<open>bjj\<close>
  filter set, no database query is executed, no rows are returned and \<open>pendingItems\<close>
  is zero. When the connection semaphore is acquired, the error is "ethAddr and bjj are
  incompatible" and the semaphore is released; when the acquisition fails, the error is
  the one of the acquisition and nothing is released.
\<close>

theorem GetTxsAPI_incompatible_filters:
  "GetTxsAPI acquire db (Some a) (Some k) tokenID idx batchNum txType fromItem limit order =
     (case acquire of
        None \<Rightarrow> (Returns ([], 0, Some ErrIncompatible), [EvAcquire, EvRelease, EvCancel])
      | Some e \<Rightarrow> (Returns ([], 0, Some e), [EvAcquire, EvCancel]))"
  by (simp add: GetTxsAPI_def split: option.splits)

text \<open>
  C10 as stated fails when \<open>Acquire\<close> times out: the call returns the time-out, not
  the incompatibility error, and the semaphore is neither held nor released.
\<close>

theorem GetTxsAPI_incompatible_filters_counterexample:
  "GetTxsAPI (Some (ErrOther ''context deadline exceeded''))
     \<lparr>rows = [], failure = None\<rparr> (Some 1) (Some 2) None None None None None (Some 10) ''ASC''
     = (Returns ([], 0, Some (ErrOther ''context deadline exceeded'')), [EvAcquire, EvCancel])
   \<and> GetTxsAPI (Some (ErrOther ''context deadline exceeded''))
     \<lparr>rows = [], failure = None\<rparr> (Some 1) (Some 2) None None None None None (Some 10) ''ASC''
     \<noteq> (Returns ([], 0, Some ErrIncompatible), [EvAcquire, EvRelease, EvCancel])"
  by (simp add: GetTxsAPI_def)

subsection \<open>reorg\<close>







subsection \<open>Status\<close>

text \<open>
  C8. \<open>Status\<close> writes through the \<open>nil\<close> pointer \<open>status\<close>: whenever
  \<open>GetLastBlock\<close> succeeds it panics; it never returns a \<open>Status\<close> value; and a run
  that does not panic returns the error of \<open>GetLastBlock\<close>, before the first field
  assignment.
\<close>

theorem Synchronizer_Status_panics:
  "(\<forall>b. GetLastBlock c (historyDB s) = Inr b \<longrightarrow> Synchronizer_Status c s = Panics)
   \<and> (\<forall>st err. Synchronizer_Status c s \<noteq> Returns (Some st, err))
   \<and> (Synchronizer_Status c s \<noteq> Panics \<longrightarrow>
        (\<exists>e. GetLastBlock c (historyDB s) = Inl e
               \<and> Synchronizer_Status c s = Returns (None, Some e)))"
  by (auto simp: Synchronizer_Status_def assign_def split: sum.splits)

theorem Synchronizer_Status_panics_witness:
  "HistoryDB_GetLastBlock \<lparr>blocks = [\<lparr>EthBlockNum = 100, Hash = 10\<rparr>], batches = []\<rparr>
     = Inr \<lparr>EthBlockNum = 100, Hash = 10\<rparr>
   \<and> Synchronizer_Status (stores [\<lparr>EthBlockNum = 100, Hash = 10\<rparr>])
       \<lparr>historyDB = \<lparr>blocks = [\<lparr>EthBlockNum = 100, Hash = 10\<rparr>], batches = []\<rparr>,
        stateDB = \<lparr>currentBatch = 0, checkpoints = []\<rparr>,
        firstSavedBlock = \<lparr>EthBlockNum = 80, Hash = 0\<rparr>\<rparr> = Panics
   \<and> Synchronizer_Status (stores [\<lparr>EthBlockNum = 100, Hash = 10\<rparr>])
       \<lparr>historyDB = \<lparr>blocks = [], batches = []\<rparr>,
        stateDB = \<lparr>currentBatch = 0, checkpoints = []\<rparr>,
        firstSavedBlock = \<lparr>EthBlockNum = 80, Hash = 0\<rparr>\<rparr> = Returns (None, Some ErrNoRows)"
proof -
  have a: "GetLastBlock (stores [\<lparr>EthBlockNum = 100, Hash = 10\<rparr>])
             (historyDB \<lparr>historyDB = \<lparr>blocks = [\<lparr>EthBlockNum = 100, Hash = 10\<rparr>], batches = []\<rparr>,
        stateDB = \<lparr>currentBatch = 0, checkpoints = []\<rparr>,
        firstSavedBlock = \<lparr>EthBlockNum = 80, Hash = 0\<rparr>\<rparr>) = Inr \<lparr>EthBlockNum = 100, Hash = 10\<rparr>"
    by (simp add: stores_def HistoryDB_GetLastBlock_def)
  have b: "Synchronizer_Status (stores [\<lparr>EthBlockNum = 100, Hash = 10\<rparr>])
       \<lparr>historyDB = \<lparr>blocks = [], batches = []\<rparr>,
        stateDB = \<lparr>currentBatch = 0, checkpoints = []\<rparr>,
        firstSavedBlock = \<lparr>EthBlockNum = 80, Hash = 0\<rparr>\<rparr> \<noteq> Panics"
    by (simp add: Synchronizer_Status_def stores_def HistoryDB_GetLastBlock_def)
  from Synchronizer_Status_panics [THEN conjunct1, rule_format, OF a]
       Synchronizer_Status_panics [THEN conjunct2, THEN conjunct2, rule_format, OF b]
  show ?thesis
    by (auto simp: stores_def HistoryDB_GetLastBlock_def)
qed

subsection \<open>L2Tx codecs\<close>

lemma length_be_bytes [simp]: "length (be_bytes n v) = n"
  by (induction n arbitrary: v) simp_all

lemma be_bytes_numeral:
  "be_bytes (numeral n) v = be_bytes (pred_numeral n) (v div 256) @ [of_nat v]"
  by (subst numeral_eq_Suc) (simp only: be_bytes.simps)

lemma be_val_snoc: "be_val (xs @ [b]) = be_val xs * 256 + unat b"
  by (simp add: be_val_def)

lemma be_val_be_bytes: "be_val (be_bytes n v) = v mod 256 ^ n"
proof (induction n arbitrary: v)
  case 0
  show ?case by (simp add: be_val_def)
next
  case (Suc n)
  have "be_val (be_bytes (Suc n) v) = (v div 256 mod 256 ^ n) * 256 + v mod 256"
    by (simp add: be_val_snoc Suc unat_of_nat)
  also have "\<dots> = v mod 256 ^ Suc n"
    by (simp add: mod_mult2_eq)
  finally show ?case .
qed

lemma be_val_zeros: "be_val (replicate m 0 @ bs) = be_val bs"
proof -
  have "foldl (\<lambda>a b. a * 256 + unat b) 0 (replicate m (0 :: byte)) = 0"
    by (induction m) simp_all
  then show ?thesis by (simp add: be_val_def)
qed

lemma drop_be_bytes: "drop m (be_bytes (m + l) v) = be_bytes l v"
  by (induction l arbitrary: v) simp_all

lemma copy_into_zeros:
  assumes "length S \<le> n"
  shows "copy_into (A @ replicate n 0) (length A) (length A + length S) S
           = A @ S @ replicate (n - length S) 0"
  using assms by (simp add: copy_into_def)

lemma drop_be_bytes_6: "l \<le> 6 \<Longrightarrow> drop (6 - l) (be_bytes 6 v) = be_bytes l v"
  using drop_be_bytes [of "6 - l" l v] by simp

lemma Float16FromBytes_Bytes: "Float16FromBytes (Float16_Bytes f) = f"
proof -
  have "unat f < 256 ^ 2" using unsigned_less [of f, where ?'a = nat] by simp
  then show ?thesis
    by (simp add: Float16FromBytes_def Float16_Bytes_def be_val_be_bytes del: be_bytes.simps)
qed

lemma encode_lemma:
  assumes l: "l \<le> 6"
    and fi: "FromIdx tx < 256 ^ l" and ti: "ToIdx tx < 256 ^ l"
    and f: "NewFloat16 k (Amount tx) = Inr f"
  shows "BytesDataAvailability k tx (8 * l) =
           Returns (Inr (be_bytes l (FromIdx tx) @ be_bytes l (ToIdx tx)
                           @ Float16_Bytes f @ [Fee tx]))"
proof -
  let ?X = "be_bytes l (FromIdx tx)" and ?Y = "be_bytes l (ToIdx tx)" and ?F = "Float16_Bytes f"
  have p: "(256::nat) ^ l \<le> 256 ^ 6" using l by (intro power_increasing) simp_all
  have i1: "Idx_Bytes (FromIdx tx) = Inr (be_bytes 6 (FromIdx tx))"
    and i2: "Idx_Bytes (ToIdx tx) = Inr (be_bytes 6 (ToIdx tx))"
    using fi ti p by (simp_all add: Idx_Bytes_def del: be_bytes.simps)
  have lf: "length ?F = 2" by (simp add: Float16_Bytes_def del: be_bytes.simps)
  have b0: "replicate (((8 * l * 2) + 16 + 8) div 8) (0::byte) = [] @ replicate (2 * l + 3) 0"
    by simp
  have b1: "copy_into ([] @ replicate (2 * l + 3) 0) 0 l ?X = ?X @ replicate (l + 3) 0"
    using copy_into_zeros [of ?X "2 * l + 3" "[]"] by simp
  have b2: "copy_into (?X @ replicate (l + 3) 0) l (l * 2) ?Y = (?X @ ?Y) @ replicate 3 0"
    using copy_into_zeros [of ?Y "l + 3" ?X] by (simp add: mult_2_right)
  have b3: "copy_into ((?X @ ?Y) @ replicate 3 0) (l * 2) (l * 2 + 2) ?F
              = (?X @ ?Y @ ?F) @ [0]"
    using copy_into_zeros [of ?F 3 "?X @ ?Y"] lf by (simp add: mult_2_right)
  have b4: "((?X @ ?Y @ ?F) @ [0]) [l * 2 + 2 := Fee tx] = ?X @ ?Y @ ?F @ [Fee tx]"
    using lf list_update_length [of "?X @ ?Y @ ?F" 0 "[]" "Fee tx"]
    by (simp add: mult_2_right)
  show ?thesis
    unfolding BytesDataAvailability_def Let_def
    using l
    by (simp only: i1 i2 f sum.case nonzero_mult_div_cancel_left b0 drop_be_bytes_6
          b1 b2 b3 b4) simp
qed


lemma copy_into_pad:
  assumes "length X = l" "l \<le> 6"
  shows "copy_into (replicate 6 (0::byte)) (6 - l) 6 X = replicate (6 - l) 0 @ X"
  using assms by (simp add: copy_into_def)

lemma decode_lemma:
  assumes l: "l \<le> 6" and X: "length X = l" and Y: "length Y = l" and F: "length F = 2"
  shows "L2TxFromBytesDataAvailability k (X @ Y @ F @ [fee]) (8 * l) =
           Returns (Inr ((L2Tx_zero k)\<lparr>FromIdx := be_val X, ToIdx := be_val Y,
                          Amount := Float16_BigInt k (Float16FromBytes F), Fee := fee\<rparr>))"
proof -
  let ?b = "X @ Y @ F @ [fee]"
  have len: "length ?b = 2 * l + 3" using X Y F by simp
  have s1: "go_slice ?b 0 l = X" using X by (simp add: go_slice_def)
  have s2: "go_slice ?b l (l * 2) = Y" using X Y by (simp add: go_slice_def)
  have s3: "go_slice ?b (l * 2) (l * 2 + 2) = F" using X Y F by (simp add: go_slice_def)
  have s4: "?b ! (l * 2 + 2) = fee"
    using X Y F nth_append_length [of "X @ Y @ F" fee "[]"] by (simp add: mult_2_right)
  have p1: "IdxFromBytes (replicate (6 - l) 0 @ X) = Inr (be_val X)"
    and p2: "IdxFromBytes (replicate (6 - l) 0 @ Y) = Inr (be_val Y)"
    using l X Y by (simp_all add: IdxFromBytes_def be_val_zeros)
  show ?thesis
    unfolding L2TxFromBytesDataAvailability_def Let_def
    using l len
    by (simp only: nonzero_mult_div_cancel_left s1 s2 s3 s4
          copy_into_pad [OF X l] copy_into_pad [OF Y l] p1 p2 sum.case) simp
qed

text \<open>
  C5 (amended). For \<open>nLevels\<close> a multiple of 8 not above 48, and an \<open>L2Tx\<close> whose
  \<open>FromIdx\<close> and \<open>ToIdx\<close> fit in \<open>nLevels\<close> bits and whose \<open>Amount\<close> is exactly
  Float16-representable, \<open>BytesDataAvailability(nLevels)\<close> produces
  \<open>FromIdx\<close> (\<open>nLevels/8\<close> bytes) \<open>\<parallel>\<close> \<open>ToIdx\<close> (\<open>nLevels/8\<close> bytes) \<open>\<parallel>\<close>
  \<open>AmountFloat16\<close> (2 bytes) \<open>\<parallel>\<close> \<open>Fee\<close> (1 byte), and decoding that output with
  \<open>L2TxFromBytesDataAvailability\<close> returns the transaction's \<open>FromIdx\<close>, \<open>ToIdx\<close>,
  \<open>Amount\<close> and \<open>Fee\<close>, with every other field zero.
\<close>

theorem L2Tx_DataAvailability_roundtrip:
  assumes "nLevels mod 8 = 0" and "nLevels \<le> 48"
    and "FromIdx tx < 2 ^ nLevels" and "ToIdx tx < 2 ^ nLevels"
    and "NewFloat16 k (Amount tx) = Inr f" and "Float16_BigInt k f = Amount tx"
  shows "BytesDataAvailability k tx nLevels =
           Returns (Inr (be_bytes (nLevels div 8) (FromIdx tx) @ be_bytes (nLevels div 8) (ToIdx tx)
                           @ Float16_Bytes f @ [Fee tx]))
         \<and> L2TxFromBytesDataAvailability k
             (be_bytes (nLevels div 8) (FromIdx tx) @ be_bytes (nLevels div 8) (ToIdx tx)
                @ Float16_Bytes f @ [Fee tx]) nLevels =
           Returns (Inr ((L2Tx_zero k)\<lparr>FromIdx := FromIdx tx, ToIdx := ToIdx tx,
                          Amount := Amount tx, Fee := Fee tx\<rparr>))"
proof -
  from assms(1) obtain l where n: "nLevels = 8 * l" by (auto simp: mod_eq_0_iff_dvd)
  with assms(2) have l: "l \<le> 6" by simp
  have pw: "(2::nat) ^ nLevels = 256 ^ l"
    unfolding n by (simp add: power_mult)
  have fi: "FromIdx tx < 256 ^ l" and ti: "ToIdx tx < 256 ^ l"
    using assms(3,4) pw by simp_all
  have d: "nLevels div 8 = l" using n by simp
  have lf: "length (Float16_Bytes f) = 2" by (simp add: Float16_Bytes_def del: be_bytes.simps)
  have enc: "BytesDataAvailability k tx nLevels =
           Returns (Inr (be_bytes l (FromIdx tx) @ be_bytes l (ToIdx tx)
                           @ Float16_Bytes f @ [Fee tx]))"
    unfolding n by (rule encode_lemma [OF l fi ti assms(5)])
  have dec: "L2TxFromBytesDataAvailability k
             (be_bytes l (FromIdx tx) @ be_bytes l (ToIdx tx) @ Float16_Bytes f @ [Fee tx]) nLevels =
           Returns (Inr ((L2Tx_zero k)\<lparr>FromIdx := FromIdx tx, ToIdx := ToIdx tx,
                          Amount := Amount tx, Fee := Fee tx\<rparr>))"
    unfolding n
    using decode_lemma [OF l length_be_bytes length_be_bytes lf, of k "FromIdx tx" "ToIdx tx" "Fee tx"]
          fi ti assms(6)
    by (simp add: be_val_be_bytes Float16FromBytes_Bytes del: be_bytes.simps)
  show ?thesis unfolding d using enc dec by simp
qed

theorem L2Tx_DataAvailability_roundtrip_witness:
  "BytesDataAvailability
     \<lparr>TxIDLen = 13,
       NewFloat16 = (\<lambda>x. if 0 \<le> x \<and> x < 1024 then Inr (word_of_int x)
                         else Inl (ErrOther ''rounding loss'')),
       Float16_BigInt = uint,
       sha256 = (\<lambda>b. take 32 (b @ replicate 32 0))\<rparr>
     \<lparr>TxID = replicate 13 0, BatchNum = 0, Position = 0, FromIdx = 256, ToIdx = 257,
       TokenID = 0, Amount = 10, Fee = 3, Nonce = 0, Type = [], L2Tx_EthBlockNum = 0\<rparr> 32
   = Returns (Inr [0, 0, 1, 0, 0, 0, 1, 1, 0, 10, 3])
   \<and> L2TxFromBytesDataAvailability
     \<lparr>TxIDLen = 13,
       NewFloat16 = (\<lambda>x. if 0 \<le> x \<and> x < 1024 then Inr (word_of_int x)
                         else Inl (ErrOther ''rounding loss'')),
       Float16_BigInt = uint,
       sha256 = (\<lambda>b. take 32 (b @ replicate 32 0))\<rparr>
     [0, 0, 1, 0, 0, 0, 1, 1, 0, 10, 3] 32
   = Returns (Inr
      \<lparr>TxID = replicate 13 0, BatchNum = 0, Position = 0, FromIdx = 256, ToIdx = 257,
       TokenID = 0, Amount = 10, Fee = 3, Nonce = 0, Type = [], L2Tx_EthBlockNum = 0\<rparr>)"
proof -
  have w: "(256 :: byte) = 0" "(257 :: byte) = 1"
    by simp_all
  from L2Tx_DataAvailability_roundtrip [of 32 "\<lparr>TxID = replicate 13 0, BatchNum = 0, Position = 0, FromIdx = 256, ToIdx = 257,
       TokenID = 0, Amount = 10, Fee = 3, Nonce = 0, Type = [], L2Tx_EthBlockNum = 0\<rparr>" "\<lparr>TxIDLen = 13,
       NewFloat16 = (\<lambda>x. if 0 \<le> x \<and> x < 1024 then Inr (word_of_int x)
                         else Inl (ErrOther ''rounding loss'')),
       Float16_BigInt = uint,
       sha256 = (\<lambda>b. take 32 (b @ replicate 32 0))\<rparr>" 10]
  show ?thesis
    by (simp add: L2Tx_zero_def Float16_Bytes_def be_bytes_numeral w)
qed

text \<open>
  C5 as stated fails on a transaction with a field the layout does not carry: a
  \<open>TokenID\<close> of 1 and a \<open>Nonce\<close> of 5 are decoded as 0. The \<open>Float16\<close> codec
  here is the one of the amounts below 1024, which are their own mantissa.
\<close>

theorem L2Tx_DataAvailability_roundtrip_counterexample:
  "BytesDataAvailability
     \<lparr>TxIDLen = 13,
       NewFloat16 = (\<lambda>x. if 0 \<le> x \<and> x < 1024 then Inr (word_of_int x)
                         else Inl (ErrOther ''rounding loss'')),
       Float16_BigInt = uint,
       sha256 = (\<lambda>b. take 32 (b @ replicate 32 0))\<rparr>
     \<lparr>TxID = replicate 13 0, BatchNum = 0, Position = 0, FromIdx = 256, ToIdx = 257,
       TokenID = 1, Amount = 10, Fee = 3, Nonce = 5, Type = [], L2Tx_EthBlockNum = 0\<rparr> 32
   = Returns (Inr [0, 0, 1, 0, 0, 0, 1, 1, 0, 10, 3])
   \<and> L2TxFromBytesDataAvailability
     \<lparr>TxIDLen = 13,
       NewFloat16 = (\<lambda>x. if 0 \<le> x \<and> x < 1024 then Inr (word_of_int x)
                         else Inl (ErrOther ''rounding loss'')),
       Float16_BigInt = uint,
       sha256 = (\<lambda>b. take 32 (b @ replicate 32 0))\<rparr>
     [0, 0, 1, 0, 0, 0, 1, 1, 0, 10, 3] 32
   = Returns (Inr
      \<lparr>TxID = replicate 13 0, BatchNum = 0, Position = 0, FromIdx = 256, ToIdx = 257,
       TokenID = 0, Amount = 10, Fee = 3, Nonce = 0, Type = [], L2Tx_EthBlockNum = 0\<rparr>)
   \<and> \<lparr>TxID = replicate 13 0, BatchNum = 0, Position = 0, FromIdx = 256, ToIdx = 257,
       TokenID = 0, Amount = 10, Fee = 3, Nonce = 0, Type = [], L2Tx_EthBlockNum = 0\<rparr>
     \<noteq> \<lparr>TxID = replicate 13 0, BatchNum = 0, Position = 0, FromIdx = 256, ToIdx = 257,
       TokenID = 1, Amount = 10, Fee = 3, Nonce = 5, Type = [], L2Tx_EthBlockNum = 0\<rparr>"
proof -
  have e: "BytesDataAvailability
     \<lparr>TxIDLen = 13,
       NewFloat16 = (\<lambda>x. if 0 \<le> x \<and> x < 1024 then Inr (word_of_int x)
                         else Inl (ErrOther ''rounding loss'')),
       Float16_BigInt = uint,
       sha256 = (\<lambda>b. take 32 (b @ replicate 32 0))\<rparr>
     \<lparr>TxID = replicate 13 0, BatchNum = 0, Position = 0, FromIdx = 256, ToIdx = 257,
       TokenID = 1, Amount = 10, Fee = 3, Nonce = 5, Type = [], L2Tx_EthBlockNum = 0\<rparr> (8 * 4)
   = Returns (Inr [0, 0, 1, 0, 0, 0, 1, 1, 0, 10, 3])"
    by (subst encode_lemma [where f = 10]) (simp_all add: Float16_Bytes_def be_bytes_numeral)
  have d: "L2TxFromBytesDataAvailability
     \<lparr>TxIDLen = 13,
       NewFloat16 = (\<lambda>x. if 0 \<le> x \<and> x < 1024 then Inr (word_of_int x)
                         else Inl (ErrOther ''rounding loss'')),
       Float16_BigInt = uint,
       sha256 = (\<lambda>b. take 32 (b @ replicate 32 0))\<rparr>
     ([0, 0, 1, 0] @ [0, 0, 1, 1] @ [0, 10] @ [3]) (8 * 4)
   = Returns (Inr
      \<lparr>TxID = replicate 13 0, BatchNum = 0, Position = 0, FromIdx = 256, ToIdx = 257,
       TokenID = 0, Amount = 10, Fee = 3, Nonce = 0, Type = [], L2Tx_EthBlockNum = 0\<rparr>)"
    by (subst decode_lemma)
       (simp_all add: L2Tx_zero_def Float16FromBytes_def be_val_def)
  from e d show ?thesis by simp
qed

text \<open>
  C4. With a \<open>TxID\<close> of 1 to 33 bytes and SHA-256 digests of 32 bytes: when \<open>FromIdx\<close>
  and \<open>Nonce\<close> can be serialized and \<open>Amount\<close> is exactly Float16-representable,
  \<open>CalculateTxID\<close> returns the type tag \<open>0x02\<close> followed by the leading bytes of the
  SHA-256 of \<open>FromIdx\<close> (6 bytes big-endian) \<open>\<parallel>\<close> \<open>TokenID\<close> (4 bytes) \<open>\<parallel>\<close>
  \<open>Float16(Amount)\<close> (2 bytes) \<open>\<parallel>\<close> \<open>Nonce\<close> (5 bytes) \<open>\<parallel>\<close> \<open>Fee\<close> (1 byte); and it
  fails exactly when \<open>Amount\<close> is not Float16-representable or \<open>FromIdx\<close> or \<open>Nonce\<close>
  overflows its width.
\<close>

theorem CalculateTxID_layout:
  assumes "0 < TxIDLen k" and "TxIDLen k \<le> 33" and "\<forall>b. length (sha256 k b) = 32"
  shows "(FromIdx tx < 2 ^ 48 \<and> Nonce tx < 2 ^ 40 \<and> NewFloat16 k (Amount tx) = Inr f \<longrightarrow>
            CalculateTxID k tx =
              Inr (2 # take (TxIDLen k - 1)
                         (sha256 k (be_bytes 6 (FromIdx tx) @ be_bytes 4 (unat (TokenID tx))
                                      @ be_bytes 2 (unat f) @ be_bytes 5 (Nonce tx)
                                      @ [Fee tx]))))
         \<and> ((\<exists>e. CalculateTxID k tx = Inl e) \<longleftrightarrow>
              (2 ^ 48 \<le> FromIdx tx \<or> (\<exists>e. NewFloat16 k (Amount tx) = Inl e)
               \<or> 2 ^ 40 \<le> Nonce tx))"
proof -
  have cp: "copy_into ((replicate (TxIDLen k) 0) [0 := TxIDPrefixL2Tx]) (Suc 0) (TxIDLen k) (sha256 k b)
              = 2 # take (TxIDLen k - 1) (sha256 k b)" for b
  proof -
    obtain n where n: "TxIDLen k = Suc n" using assms(1) by (cases "TxIDLen k") auto
    with assms(2,3) show ?thesis
      by (simp add: copy_into_def TxIDPrefixL2Tx_def min_def)
  qed
  show ?thesis
    by (auto simp: CalculateTxID_def Let_def cp Idx_Bytes_def Nonce_Bytes_def TokenID_Bytes_def
          Float16_Bytes_def simp del: be_bytes.simps split: sum.splits)
qed

theorem CalculateTxID_layout_witness:
  "CalculateTxID
     \<lparr>TxIDLen = 13,
       NewFloat16 = (\<lambda>x. if 0 \<le> x \<and> x < 1024 then Inr (word_of_int x)
                         else Inl (ErrOther ''rounding loss'')),
       Float16_BigInt = uint,
       sha256 = (\<lambda>b. take 32 (b @ replicate 32 0))\<rparr>
     \<lparr>TxID = replicate 13 0, BatchNum = 0, Position = 0, FromIdx = 256, ToIdx = 257,
       TokenID = 0, Amount = 10, Fee = 3, Nonce = 0, Type = [], L2Tx_EthBlockNum = 0\<rparr>
   = Inr [2, 0, 0, 0, 0, 1, 0, 0, 0, 0, 0, 0, 10]"
proof -
  have h: "\<forall>b. length (sha256 \<lparr>TxIDLen = 13,
       NewFloat16 = (\<lambda>x. if 0 \<le> x \<and> x < 1024 then Inr (word_of_int x)
                         else Inl (ErrOther ''rounding loss'')),
       Float16_BigInt = uint,
       sha256 = (\<lambda>b. take 32 (b @ replicate 32 0))\<rparr> b) = 32"
    by (simp add: min_def)
  have w: "(256 :: byte) = 0"
    by simp
  from CalculateTxID_layout [of "\<lparr>TxIDLen = 13,
       NewFloat16 = (\<lambda>x. if 0 \<le> x \<and> x < 1024 then Inr (word_of_int x)
                         else Inl (ErrOther ''rounding loss'')),
       Float16_BigInt = uint,
       sha256 = (\<lambda>b. take 32 (b @ replicate 32 0))\<rparr>" "\<lparr>TxID = replicate 13 0, BatchNum = 0, Position = 0, FromIdx = 256, ToIdx = 257,
       TokenID = 0, Amount = 10, Fee = 3, Nonce = 0, Type = [], L2Tx_EthBlockNum = 0\<rparr>" 10, OF _ _ h]
  show ?thesis
    by (simp add: be_bytes_numeral w)
qed

subsection \<open>RollupForgeBatchArgs\<close>

lemma L1CoordinatorTxs_loop_step:
  assumes "i < n"
  shows "L1CoordinatorTxs_loop p enc n i txs auths =
           (case p (go_slice enc (i * 101) (i * 101 + 101)) of
              Inl err \<Rightarrow> Inl err
            | Inr l1Tx \<Rightarrow>
                L1CoordinatorTxs_loop p enc n (Suc i) (txs @ [l1Tx])
                  (auths @ [go_slice (go_slice enc (i * 101) (i * 101 + 101)) 33 65
                            @ go_slice (go_slice enc (i * 101) (i * 101 + 101)) 1 33
                            @ [go_slice enc (i * 101) (i * 101 + 101) ! 0]]))"
proof -
  have a: "(i + 1) * 101 = i * 101 + 101" by simp
  show ?thesis
    by (subst L1CoordinatorTxs_loop.simps)
       (simp only: assms if_True Let_def L1CoordinatorTxBytesLen_def a append_Nil append_assoc)
qed

lemma L1CoordinatorTxs_loop_stop:
  "\<not> i < n \<Longrightarrow> L1CoordinatorTxs_loop p enc n i txs auths = Inr (txs, auths)"
  by (subst L1CoordinatorTxs_loop.simps) simp

lemma L1CoordinatorTxs_loop_result:
  assumes "L1CoordinatorTxs_loop p enc n i txs auths = Inr (txs', auths')" and "i \<le> n"
  shows "\<exists>txs2 auths2. txs' = txs @ txs2 \<and> auths' = auths @ auths2
           \<and> length txs2 = n - i \<and> length auths2 = n - i
           \<and> (\<forall>j < n - i.
                  p (go_slice enc ((i + j) * 101) ((i + j) * 101 + 101)) = Inr (txs2 ! j)
                  \<and> auths2 ! j =
                      go_slice (go_slice enc ((i + j) * 101) ((i + j) * 101 + 101)) 33 65
                      @ go_slice (go_slice enc ((i + j) * 101) ((i + j) * 101 + 101)) 1 33
                      @ [go_slice enc ((i + j) * 101) ((i + j) * 101 + 101) ! 0])"
  using assms
proof (induction "n - i" arbitrary: i txs auths)
  case 0
  then have "\<not> i < n" by simp
  with "0.prems" show ?case by (simp add: L1CoordinatorTxs_loop_stop)
next
  case (Suc k)
  then have lt: "i < n" by simp
  let ?chunk = "go_slice enc (i * 101) (i * 101 + 101)"
  let ?sig = "go_slice ?chunk 33 65 @ go_slice ?chunk 1 33 @ [?chunk ! 0]"
  from Suc.prems(1) obtain l1Tx where p: "p ?chunk = Inr l1Tx"
    and rec: "L1CoordinatorTxs_loop p enc n (Suc i) (txs @ [l1Tx]) (auths @ [?sig])
                = Inr (txs', auths')"
    unfolding L1CoordinatorTxs_loop_step [OF lt] by (auto split: sum.splits)
  have k: "k = n - Suc i" using Suc.hyps(2) by simp
  from Suc.hyps(1) [OF k rec] lt
  obtain txs2 auths2 where r: "txs' = (txs @ [l1Tx]) @ txs2"
      "auths' = (auths @ [?sig]) @ auths2"
      "length txs2 = n - Suc i" "length auths2 = n - Suc i"
      and all: "\<forall>j < n - Suc i.
                p (go_slice enc ((Suc i + j) * 101) ((Suc i + j) * 101 + 101)) = Inr (txs2 ! j)
                \<and> auths2 ! j =
                    go_slice (go_slice enc ((Suc i + j) * 101) ((Suc i + j) * 101 + 101)) 33 65
                    @ go_slice (go_slice enc ((Suc i + j) * 101) ((Suc i + j) * 101 + 101)) 1 33
                    @ [go_slice enc ((Suc i + j) * 101) ((Suc i + j) * 101 + 101) ! 0]"
    by auto
  have step: "p (go_slice enc ((i + j) * 101) ((i + j) * 101 + 101)) = Inr ((l1Tx # txs2) ! j)
        \<and> (?sig # auths2) ! j =
              go_slice (go_slice enc ((i + j) * 101) ((i + j) * 101 + 101)) 33 65
              @ go_slice (go_slice enc ((i + j) * 101) ((i + j) * 101 + 101)) 1 33
              @ [go_slice enc ((i + j) * 101) ((i + j) * 101 + 101) ! 0]"
    if j: "j < n - i" for j
  proof (cases j)
    case 0
    with p show ?thesis by simp
  next
    case (Suc j')
    with j have "j' < n - Suc i" by simp
    with all Suc show ?thesis by simp
  qed
  show ?case
    by (intro exI [of _ "l1Tx # txs2"] exI [of _ "?sig # auths2"])
       (use r lt step in auto)
qed

lemma L1CoordinatorTxs_loop_total:
  assumes "\<forall>j. i \<le> j \<and> j < n \<longrightarrow> (\<exists>tx. p (go_slice enc (j * 101) (j * 101 + 101)) = Inr tx)"
  shows "\<exists>r. L1CoordinatorTxs_loop p enc n i txs auths = Inr r"
  using assms
proof (induction "n - i" arbitrary: i txs auths)
  case 0
  then have "\<not> i < n" by simp
  then show ?case by (simp add: L1CoordinatorTxs_loop_stop)
next
  case (Suc k)
  then have lt: "i < n" by simp
  with Suc.prems obtain l1Tx where p: "p (go_slice enc (i * 101) (i * 101 + 101)) = Inr l1Tx"
    by auto
  have k: "k = n - Suc i" using Suc.hyps(2) by simp
  have "\<forall>j. Suc i \<le> j \<and> j < n \<longrightarrow> (\<exists>tx. p (go_slice enc (j * 101) (j * 101 + 101)) = Inr tx)"
    using Suc.prems by auto
  from Suc.hyps(1) [OF k this] show ?case
    unfolding L1CoordinatorTxs_loop_step [OF lt] p by simp
qed

text \<open>
  C3 (amended). \<open>RollupForgeBatchArgs\<close> decodes the encoded L1-coordinator blob by
  splitting it into chunks of 101 bytes (the bytes after the last whole chunk are
  ignored) and passing each chunk to \<open>L1CoordinatorTxFromBytes\<close>; it reads each chunk
  under the layout \<open>v\<close> (1 byte) \<open>\<parallel>\<close> \<open>s\<close> (32 bytes) \<open>\<parallel>\<close> \<open>r\<close> (32 bytes) \<open>\<parallel>\<close> 36 more bytes
  and reconstructs the compact Ethereum signature, 65 bytes, as \<open>r\<close> \<open>\<parallel>\<close> \<open>s\<close> \<open>\<parallel>\<close> \<open>v\<close>, that
  is bytes 33..64, then bytes 1..32, then byte 0 of the chunk. It succeeds whenever every
  chunk parses.
\<close>

theorem RollupForgeBatchArgs_L1CoordinatorTxs_chunks:
  "(RollupForgeBatchArgs_L1CoordinatorTxs p enc = Inr (txs, auths) \<longrightarrow>
      length txs = length enc div 101 \<and> length auths = length enc div 101
      \<and> (\<forall>i < length enc div 101.
            length (go_slice enc (i * 101) (i * 101 + 101)) = 101
            \<and> p (go_slice enc (i * 101) (i * 101 + 101)) = Inr (txs ! i)
            \<and> auths ! i =
                go_slice (go_slice enc (i * 101) (i * 101 + 101)) 33 65
                @ go_slice (go_slice enc (i * 101) (i * 101 + 101)) 1 33
                @ [go_slice enc (i * 101) (i * 101 + 101) ! 0]
            \<and> length (auths ! i) = 65))
   \<and> ((\<forall>i < length enc div 101. \<exists>tx. p (go_slice enc (i * 101) (i * 101 + 101)) = Inr tx)
        \<longrightarrow> (\<exists>r. RollupForgeBatchArgs_L1CoordinatorTxs p enc = Inr r))"
proof (intro conjI impI)
  assume a: "RollupForgeBatchArgs_L1CoordinatorTxs p enc = Inr (txs, auths)"
  let ?n = "length enc div 101"
  from a have "L1CoordinatorTxs_loop p enc ?n 0 [] [] = Inr (txs, auths)"
    by (simp add: RollupForgeBatchArgs_L1CoordinatorTxs_def L1CoordinatorTxBytesLen_def)
  from L1CoordinatorTxs_loop_result [OF this]
  have len: "length txs = ?n" "length auths = ?n"
    and all: "\<forall>j < ?n.
                p (go_slice enc (j * 101) (j * 101 + 101)) = Inr (txs ! j)
                \<and> auths ! j =
                    go_slice (go_slice enc (j * 101) (j * 101 + 101)) 33 65
                    @ go_slice (go_slice enc (j * 101) (j * 101 + 101)) 1 33
                    @ [go_slice enc (j * 101) (j * 101 + 101) ! 0]"
    by auto
  have chunk: "length (go_slice enc (i * 101) (i * 101 + 101)) = 101" if "i < ?n" for i
  proof -
    from that have "Suc i \<le> ?n" by simp
    then have "Suc i * 101 \<le> ?n * 101" by (rule mult_le_mono1)
    also have "\<dots> \<le> length enc" by simp
    finally show ?thesis by (simp add: go_slice_def)
  qed
  show "length txs = ?n" by (rule len)
  show "length auths = ?n" by (rule len)
  show "\<forall>i < ?n.
            length (go_slice enc (i * 101) (i * 101 + 101)) = 101
            \<and> p (go_slice enc (i * 101) (i * 101 + 101)) = Inr (txs ! i)
            \<and> auths ! i =
                go_slice (go_slice enc (i * 101) (i * 101 + 101)) 33 65
                @ go_slice (go_slice enc (i * 101) (i * 101 + 101)) 1 33
                @ [go_slice enc (i * 101) (i * 101 + 101) ! 0]
            \<and> length (auths ! i) = 65"
  proof (intro allI impI)
    fix i assume i: "i < ?n"
    from chunk [OF i] have l: "length (go_slice (go_slice enc (i * 101) (i * 101 + 101)) 33 65
                @ go_slice (go_slice enc (i * 101) (i * 101 + 101)) 1 33
                @ [go_slice enc (i * 101) (i * 101 + 101) ! 0]) = 65"
      by (simp add: go_slice_def)
    from all i chunk [OF i] l
    show "length (go_slice enc (i * 101) (i * 101 + 101)) = 101
            \<and> p (go_slice enc (i * 101) (i * 101 + 101)) = Inr (txs ! i)
            \<and> auths ! i =
                go_slice (go_slice enc (i * 101) (i * 101 + 101)) 33 65
                @ go_slice (go_slice enc (i * 101) (i * 101 + 101)) 1 33
                @ [go_slice enc (i * 101) (i * 101 + 101) ! 0]
            \<and> length (auths ! i) = 65"
      by simp
  qed
next
  assume "\<forall>i < length enc div 101. \<exists>tx. p (go_slice enc (i * 101) (i * 101 + 101)) = Inr tx"
  then have "\<exists>r. L1CoordinatorTxs_loop p enc (length enc div 101) 0 [] [] = Inr r"
    by (intro L1CoordinatorTxs_loop_total) simp
  then show "\<exists>r. RollupForgeBatchArgs_L1CoordinatorTxs p enc = Inr r"
    by (simp add: RollupForgeBatchArgs_L1CoordinatorTxs_def L1CoordinatorTxBytesLen_def)
qed

theorem RollupForgeBatchArgs_L1CoordinatorTxs_chunks_witness:
  "\<exists>txs auths.
     RollupForgeBatchArgs_L1CoordinatorTxs (\<lambda>b. Inr b)
       ((27 # replicate 32 1 @ replicate 32 2 @ replicate 36 3)
        @ (28 # replicate 32 4 @ replicate 32 5 @ replicate 36 6) @ [9, 9])
     = Inr (txs, auths)
     \<and> length txs = 2
     \<and> auths ! 0 = replicate 32 2 @ replicate 32 1 @ [27]
     \<and> auths ! 1 = replicate 32 5 @ replicate 32 4 @ [28]"
proof -
  let ?c0 = "27 # replicate 32 1 @ replicate 32 2 @ replicate 36 (3 :: byte)"
  let ?c1 = "28 # replicate 32 4 @ replicate 32 5 @ replicate 36 (6 :: byte)"
  let ?enc = "?c0 @ ?c1 @ [9, 9]"
  have n: "length ?enc div 101 = 2" by simp
  have c0: "go_slice ?enc (0 * 101) (0 * 101 + 101) = ?c0"
    and c1: "go_slice ?enc (1 * 101) (1 * 101 + 101) = ?c1"
    by (simp_all add: go_slice_def)
  have two: "i = 0 \<or> i = 1" if "i < 2" for i :: nat using that by auto
  have "\<exists>r. RollupForgeBatchArgs_L1CoordinatorTxs (\<lambda>b. Inr b) ?enc = Inr r"
    by (rule RollupForgeBatchArgs_L1CoordinatorTxs_chunks [THEN conjunct2, rule_format]) simp
  then obtain txs auths where
    r: "RollupForgeBatchArgs_L1CoordinatorTxs (\<lambda>b. Inr b) ?enc = Inr (txs, auths)"
    by auto
  note t = RollupForgeBatchArgs_L1CoordinatorTxs_chunks [THEN conjunct1, rule_format, OF r]
  from t have l: "length txs = 2" unfolding n by simp
  from t have a: "\<forall>i<2. auths ! i =
                go_slice (go_slice ?enc (i * 101) (i * 101 + 101)) 33 65
                @ go_slice (go_slice ?enc (i * 101) (i * 101 + 101)) 1 33
                @ [go_slice ?enc (i * 101) (i * 101 + 101) ! 0]"
    unfolding n by blast
  from a have a0: "auths ! 0 = replicate 32 2 @ replicate 32 1 @ [27]"
    using c0 by (simp add: go_slice_def)
  from a have "auths ! 1 = go_slice (go_slice ?enc (1 * 101) (1 * 101 + 101)) 33 65
                @ go_slice (go_slice ?enc (1 * 101) (1 * 101 + 101)) 1 33
                @ [go_slice ?enc (1 * 101) (1 * 101 + 101) ! 0]"
    by simp
  then have a1: "auths ! 1 = replicate 32 5 @ replicate 32 4 @ [28]"
    unfolding c1 by (simp add: go_slice_def)
  from r l a0 a1 show ?thesis by blast
qed

text \<open>
  C3 as stated fails: under the layout \<open>v\<close> \<open>\<parallel>\<close> \<open>r\<close> \<open>\<parallel>\<close> \<open>s\<close> of the claim, the signature
  \<open>r\<close> \<open>\<parallel>\<close> \<open>s\<close> \<open>\<parallel>\<close> \<open>v\<close> of this chunk is 32 ones, 32 twos and 27; the code returns 32
  twos, 32 ones and 27.
\<close>

theorem RollupForgeBatchArgs_L1CoordinatorTxs_chunks_counterexample:
  "RollupForgeBatchArgs_L1CoordinatorTxs (\<lambda>b. Inr b)
     (27 # replicate 32 1 @ replicate 32 2 @ replicate 36 3)
   = Inr ([27 # replicate 32 1 @ replicate 32 2 @ replicate 36 3],
          [replicate 32 2 @ replicate 32 1 @ [27]])
   \<and> spec_signature (27 # replicate 32 1 @ replicate 32 2 @ replicate 36 3)
       = replicate 32 1 @ replicate 32 2 @ [27]
   \<and> replicate 32 2 @ replicate 32 1 @ [27 :: byte]
       \<noteq> spec_signature (27 # replicate 32 1 @ replicate 32 2 @ replicate 36 3)"
proof -
  let ?c = "27 # replicate 32 1 @ replicate 32 2 @ replicate 36 (3 :: byte)"
  have c: "go_slice ?c (0 * 101) (0 * 101 + 101) = ?c"
    by (simp add: go_slice_def)
  have r: "go_slice ?c 33 65 = replicate 32 2" and s: "go_slice ?c 1 33 = replicate 32 1"
    by (simp_all add: go_slice_def)
  have "L1CoordinatorTxs_loop (\<lambda>b. Inr b) ?c 1 0 [] []
          = Inr ([?c], [replicate 32 2 @ replicate 32 1 @ [27]])"
    by (subst L1CoordinatorTxs_loop_step, simp, simp only: c r s sum.case append_Nil nth_Cons_0)
       (simp add: L1CoordinatorTxs_loop_stop)
  then have a: "RollupForgeBatchArgs_L1CoordinatorTxs (\<lambda>b. Inr b) ?c
          = Inr ([?c], [replicate 32 2 @ replicate 32 1 @ [27]])"
    by (simp add: RollupForgeBatchArgs_L1CoordinatorTxs_def L1CoordinatorTxBytesLen_def)
  have b: "spec_signature ?c = replicate 32 1 @ replicate 32 2 @ [27]"
    unfolding spec_signature_def Let_def r s by simp
  have h: "(replicate 32 (2 :: byte) @ replicate 32 1 @ [27]) ! 0
             \<noteq> (replicate 32 1 @ replicate 32 2 @ [27]) ! 0"
    by (simp add: nth_append)
  have ne: "replicate 32 (2 :: byte) @ replicate 32 1 @ [27]
              \<noteq> replicate 32 1 @ replicate 32 2 @ [27]"
  proof
    assume "replicate 32 (2 :: byte) @ replicate 32 1 @ [27]
              = replicate 32 1 @ replicate 32 2 @ [27]"
    then have "(replicate 32 (2 :: byte) @ replicate 32 1 @ [27]) ! 0
             = (replicate 32 1 @ replicate 32 2 @ [27]) ! 0"
      by (rule arg_cong)
    with h show False ..
  qed
  from a b ne show ?thesis by (simp only: simp_thms)
qed

subsection \<open>RollupEventsByBlock\<close>











end
